theory Spec2Isabelle
  imports Main "HOL-Library.Word"
begin

unbundle bit_operations_syntax

section \<open>Register access through /dev/mem: axi3_h2f_lw.c and gpigpo.c\<close>

text \<open>
  The two programs of \<^verbatim>\<open>software/axi3test\<close> open \<^verbatim>\<open>/dev/mem\<close>, map one
  physical range, compute four register pointers inside the mapping and then poll for
  ever: each round advances an LED counter, stores it to one register and prints four
  registers. The target is the ARM side of the SoC, so pointers and \<^verbatim>\<open>uint32_t\<close>
  are both 32 bits wide and memory is byte addressed, little endian.
\<close>

type_synonym addr = "32 word"
type_synonym byte = "8 word"
type_synonym u32 = "32 word"

subsection \<open>Constants of the two programs\<close>

definition H2F_LW_BASE :: addr where
  "H2F_LW_BASE = 0xFF200000"

definition H2F_LW_SIZE :: nat where
  "H2F_LW_SIZE = 0x00200000"

definition FPGA_MANAGER_BASE :: addr where
  "FPGA_MANAGER_BASE = 0xFF706000"

definition FPGA_MANAGER_SIZE :: nat where
  "FPGA_MANAGER_SIZE = 0x1C"

definition FPGA_MANAGER_STAT :: int where
  "FPGA_MANAGER_STAT = 0x00"

definition FPGA_MANAGER_CTRL :: int where
  "FPGA_MANAGER_CTRL = 0x04"

definition FPGA_MANAGER_GPO :: int where
  "FPGA_MANAGER_GPO = 0x10"

definition FPGA_MANAGER_GPI :: int where
  "FPGA_MANAGER_GPI = 0x14"

text \<open>\<^verbatim>\<open>MAP_FAILED\<close> is \<^verbatim>\<open>(void * ) -1\<close>.\<close>

definition MAP_FAILED :: addr where
  "MAP_FAILED = - 1"

subsection \<open>The platform: descriptors, mappings, physical memory, and what was done\<close>

text \<open>
  Everything the programs do goes through the C library. The process state below keeps
  the open descriptors, the mappings established by \<^verbatim>\<open>mmap\<close> (virtual base, length,
  descriptor, physical base), physical memory as bytes, and a log of every call and
  every register access in program order.
\<close>

datatype event =
    SysOpen int
  | SysMmap nat int addr addr
  | SysClose int
  | SysMunmap addr nat
  | Store addr u32
  | Load addr u32
  | Printf string "u32 list"
  | Fflush
  | Usleep nat

record os =
  fds :: "int set"
  maps :: "(addr \<times> nat \<times> int \<times> addr) list"
  mem :: "addr \<Rightarrow> byte"
  trace :: "event list"

text \<open>
  What the platform answers to \<^verbatim>\<open>open\<close> and \<^verbatim>\<open>mmap\<close> is outside the programs:
  \<open>open_ret\<close> is the value \<^verbatim>\<open>open\<close> returns (\<open>-1\<close> on failure, the new descriptor
  otherwise) and \<open>mmap_ret\<close> the value \<^verbatim>\<open>mmap\<close> returns (\<open>MAP_FAILED\<close> on failure,
  the virtual base otherwise).
\<close>

record env =
  open_ret :: int
  mmap_ret :: addr

definition log :: "event \<Rightarrow> os \<Rightarrow> os" where
  "log ev s = s\<lparr>trace := trace s @ [ev]\<rparr>"

definition sys_open :: "env \<Rightarrow> os \<Rightarrow> int \<times> os" where
  "sys_open e s =
     (let fd = open_ret e;
          s1 = log (SysOpen fd) s
      in if fd = - 1 then (fd, s1) else (fd, s1\<lparr>fds := insert fd (fds s1)\<rparr>))"

definition sys_mmap :: "env \<Rightarrow> nat \<Rightarrow> int \<Rightarrow> addr \<Rightarrow> os \<Rightarrow> addr \<times> os" where
  "sys_mmap e len fd off s =
     (let p = mmap_ret e;
          s1 = log (SysMmap len fd off p) s
      in if p = MAP_FAILED then (p, s1)
         else (p, s1\<lparr>maps := (p, len, fd, off) # maps s1\<rparr>))"

definition sys_close :: "int \<Rightarrow> os \<Rightarrow> os" where
  "sys_close fd s = (log (SysClose fd) s)\<lparr>fds := fds s - {fd}\<rparr>"

text \<open>
  \<^verbatim>\<open>munmap\<close> is only ever called with the base and length of one whole mapping; it
  removes the mappings with that base and length.
\<close>

fun is_mapping_at :: "addr \<Rightarrow> nat \<Rightarrow> addr \<times> nat \<times> int \<times> addr \<Rightarrow> bool" where
  "is_mapping_at p len (b, l, fd, off) \<longleftrightarrow> b = p \<and> l = len"

definition sys_munmap :: "addr \<Rightarrow> nat \<Rightarrow> os \<Rightarrow> os" where
  "sys_munmap p len s =
     (log (SysMunmap p len) s)\<lparr>maps := filter (\<lambda>m. \<not> is_mapping_at p len m) (maps s)\<rparr>"

definition printf :: "string \<Rightarrow> u32 list \<Rightarrow> os \<Rightarrow> os" where
  "printf fmt args s = log (Printf fmt args) s"

definition fflush :: "os \<Rightarrow> os" where
  "fflush s = log Fflush s"

definition usleep :: "nat \<Rightarrow> os \<Rightarrow> os" where
  "usleep us s = log (Usleep us) s"

subsection \<open>Four-byte loads and stores\<close>

definition store32 :: "(addr \<Rightarrow> byte) \<Rightarrow> addr \<Rightarrow> u32 \<Rightarrow> (addr \<Rightarrow> byte)" where
  "store32 m a v =
     m(a := ucast v,
       a + 1 := ucast (drop_bit 8 v),
       a + 2 := ucast (drop_bit 16 v),
       a + 3 := ucast (drop_bit 24 v))"

definition load32 :: "(addr \<Rightarrow> byte) \<Rightarrow> addr \<Rightarrow> u32" where
  "load32 m a =
     ucast (m a) OR push_bit 8 (ucast (m (a + 1)))
       OR push_bit 16 (ucast (m (a + 2))) OR push_bit 24 (ucast (m (a + 3)))"

subsection \<open>The window: lines 16 to 29 of both programs, and lines 61 to 62\<close>

text \<open>
  The local variables that describe the mapping: the pointer returned by \<^verbatim>\<open>mmap\<close>,
  the length and physical base passed to it, and the descriptor.
\<close>

record window =
  virt_base :: addr
  length_w :: nat
  handle :: int
  phys_base :: addr

text \<open>
  Both error paths print a message and \<^verbatim>\<open>return 1\<close>; they are told apart here by
  a tag: the failed \<^verbatim>\<open>open\<close> and the failed \<^verbatim>\<open>mmap\<close>.
\<close>

datatype error = DeviceOpenError | MappingError

definition map_window :: "env \<Rightarrow> addr \<Rightarrow> nat \<Rightarrow> os \<Rightarrow> (error + window) \<times> os" where
  "map_window e base len s0 =
     (let (fd, s1) = sys_open e s0
      in if fd = - 1
         then (Inl DeviceOpenError, printf (''Error opening /dev/mem'' @ [CHR 0x0A]) [] s1)
         else
           (let (p, s2) = sys_mmap e len fd base s1
            in if p = MAP_FAILED
               then (Inl MappingError,
                     sys_close fd (printf (''Error performing mmap'' @ [CHR 0x0A]) [] s2))
               else (Inr \<lparr>virt_base = p, length_w = len, handle = fd, phys_base = base\<rparr>,
                     s2)))"

definition unmap_window :: "window \<Rightarrow> os \<Rightarrow> os" where
  "unmap_window w s = sys_close (handle w) (sys_munmap (virt_base w) (length_w w) s)"

subsection \<open>Register pointers and accesses\<close>

text \<open>
  \<^verbatim>\<open>reg = base + offset\<close> is arithmetic on \<^verbatim>\<open>void *\<close>, in bytes, at pointer
  width. There is no comparison with the length of the mapping anywhere.
\<close>

definition register_pointer :: "window \<Rightarrow> int \<Rightarrow> addr" where
  "register_pointer w off = virt_base w + word_of_int off"

text \<open>
  The mapping sends the virtual byte at \<open>virt_base w + d\<close> to the physical byte at
  \<open>phys_base w + d\<close>. It is established in whole pages, so this also holds for the
  bytes between the end of the window and the end of its last page.
\<close>

definition v2p :: "window \<Rightarrow> addr \<Rightarrow> addr" where
  "v2p w p = phys_base w + (p - virt_base w)"

text \<open>
  \<^verbatim>\<open>*(uint32_t * )reg = v\<close> and \<^verbatim>\<open>*(uint32_t * )reg\<close>, for a pointer inside the
  mapped pages of the window: the access is logged and goes to physical memory through
  the mapping. A pointer outside the mapped pages would make the real access fault; that
  outcome is not modelled, and the programs never form such a pointer: their accesses are
  shown below to lie inside the window.
\<close>

definition write_ptr :: "window \<Rightarrow> addr \<Rightarrow> u32 \<Rightarrow> os \<Rightarrow> os" where
  "write_ptr w p v s = (log (Store p v) s)\<lparr>mem := store32 (mem s) (v2p w p) v\<rparr>"

definition read_ptr :: "window \<Rightarrow> addr \<Rightarrow> os \<Rightarrow> u32 \<times> os" where
  "read_ptr w p s = (let v = load32 (mem s) (v2p w p) in (v, log (Load p v) s))"

definition write_reg :: "window \<Rightarrow> int \<Rightarrow> u32 \<Rightarrow> os \<Rightarrow> os" where
  "write_reg w off v s = write_ptr w (register_pointer w off) v s"

definition read_reg :: "window \<Rightarrow> int \<Rightarrow> os \<Rightarrow> u32 \<times> os" where
  "read_reg w off s = read_ptr w (register_pointer w off) s"

subsection \<open>The polling loops\<close>

text \<open>
  \<^verbatim>\<open>if(leds++ == 0xFF) { leds = 0; }\<close>: the comparison sees the old value, the
  increment (at 32 bits) happens in both branches, and the reset overwrites it.
\<close>

definition led_next :: "u32 \<Rightarrow> u32" where
  "led_next leds = (let old = leds; leds1 = leds + 1 in if old = 0xFF then 0 else leds1)"

text \<open>One round of \<^verbatim>\<open>while(true)\<close> in \<^verbatim>\<open>axi3_h2f_lw.c\<close>, lines 42 to 58.\<close>

definition axi3_round :: "window \<Rightarrow> addr \<times> addr \<times> addr \<times> addr \<Rightarrow> u32 \<times> os \<Rightarrow> u32 \<times> os" where
  "axi3_round w regs st =
     (case regs of (reg0, reg1, reg2, reg3) \<Rightarrow>
      case st of (leds0, s0) \<Rightarrow>
        let leds = led_next leds0;
            s1 = write_ptr w reg0 leds s0;
            (r0, s2) = read_ptr w reg0 s1;
            (r1, s3) = read_ptr w reg1 s2;
            (r2, s4) = read_ptr w reg2 s3;
            (r3, s5) = read_ptr w reg3 s4;
            s6 = printf [CHR 0x0D] [] s5;
            s7 = printf ''0x%08X | '' [r0] s6;
            s8 = printf ''0x%08X | '' [r1] s7;
            s9 = printf ''0x%08X | '' [r2] s8;
            s10 = printf ''0x%08X'' [r3] s9;
            s11 = fflush s10;
            s12 = usleep 10000 s11
        in (leds, s12))"

text \<open>One round of \<^verbatim>\<open>while(true)\<close> in \<^verbatim>\<open>gpigpo.c\<close>, lines 47 to 58.\<close>

definition gpigpo_round :: "window \<Rightarrow> addr \<times> addr \<times> addr \<times> addr \<Rightarrow> u32 \<times> os \<Rightarrow> u32 \<times> os" where
  "gpigpo_round w regs st =
     (case regs of (status, control, gpo, gpi) \<Rightarrow>
      case st of (leds0, s0) \<Rightarrow>
        let leds = led_next leds0;
            s1 = write_ptr w gpo leds s0;
            s2 = printf [CHR 0x0D] [] s1;
            (v0, s3) = read_ptr w status s2;
            s4 = printf ''0x%08X | '' [v0] s3;
            (v1, s5) = read_ptr w control s4;
            s6 = printf ''0x%08X | '' [v1] s5;
            (v2, s7) = read_ptr w gpi s6;
            s8 = printf ''0x%08X | '' [v2] s7;
            (v3, s9) = read_ptr w gpo s8;
            s10 = printf ''0x%08X'' [v3] s9;
            s11 = fflush s10;
            s12 = usleep 100000 s11
        in (leds, s12))"

text \<open>
  The loops have no exit. \<open>axi3_poll n\<close> and \<open>gpigpo_poll n\<close> are the first \<open>n\<close> rounds
  of the run; every finite prefix of the run is one of them.
\<close>

fun axi3_poll :: "nat \<Rightarrow> window \<Rightarrow> addr \<times> addr \<times> addr \<times> addr \<Rightarrow> u32 \<times> os \<Rightarrow> u32 \<times> os" where
  "axi3_poll 0 w regs st = st"
| "axi3_poll (Suc n) w regs st = axi3_poll n w regs (axi3_round w regs st)"

fun gpigpo_poll :: "nat \<Rightarrow> window \<Rightarrow> addr \<times> addr \<times> addr \<times> addr \<Rightarrow> u32 \<times> os \<Rightarrow> u32 \<times> os" where
  "gpigpo_poll 0 w regs st = st"
| "gpigpo_poll (Suc n) w regs st = gpigpo_poll n w regs (gpigpo_round w regs st)"

subsection \<open>The two programs\<close>

text \<open>
  A run either leaves \<^verbatim>\<open>main\<close> with an exit status or is still polling after the
  rounds looked at. The statements after the loop (\<^verbatim>\<open>munmap\<close>, \<^verbatim>\<open>close\<close>,
  \<^verbatim>\<open>return 0\<close>) are never reached from it; they are \<open>unmap_window\<close> above.
\<close>

datatype outcome = Exited int | Polling

definition axi3_offsets :: "int list" where
  "axi3_offsets = [0, 4, 8, 12]"

definition gpigpo_offsets :: "int list" where
  "gpigpo_offsets = [FPGA_MANAGER_STAT, FPGA_MANAGER_CTRL, FPGA_MANAGER_GPO, FPGA_MANAGER_GPI]"

definition axi3_regs :: "window \<Rightarrow> addr \<times> addr \<times> addr \<times> addr" where
  "axi3_regs w =
     (register_pointer w 0, register_pointer w 4, register_pointer w 8, register_pointer w 12)"

definition gpigpo_regs :: "window \<Rightarrow> addr \<times> addr \<times> addr \<times> addr" where
  "gpigpo_regs w =
     (register_pointer w FPGA_MANAGER_STAT, register_pointer w FPGA_MANAGER_CTRL,
      register_pointer w FPGA_MANAGER_GPO, register_pointer w FPGA_MANAGER_GPI)"

definition axi3_main :: "env \<Rightarrow> nat \<Rightarrow> os \<Rightarrow> outcome \<times> os" where
  "axi3_main e n s0 =
     (case map_window e H2F_LW_BASE H2F_LW_SIZE s0 of
        (Inl err, s1) \<Rightarrow> (Exited 1, s1)
      | (Inr w, s1) \<Rightarrow>
          let regs = axi3_regs w;
              leds = 0;
              s2 = printf (''Reg0       | Reg1       | Reg2       | Reg3'' @ [CHR 0x0A]) [] s1;
              (leds', s3) = axi3_poll n w regs (leds, s2)
          in (Polling, s3))"

definition gpigpo_main :: "env \<Rightarrow> nat \<Rightarrow> os \<Rightarrow> outcome \<times> os" where
  "gpigpo_main e n s0 =
     (case map_window e FPGA_MANAGER_BASE FPGA_MANAGER_SIZE s0 of
        (Inl err, s1) \<Rightarrow> (Exited 1, s1)
      | (Inr w, s1) \<Rightarrow>
          let regs = gpigpo_regs w;
              leds = 0;
              s2 = printf (''Status     | Control    | GPI        | GPO'' @ [CHR 0x0A]) [] s1;
              (leds', s3) = gpigpo_poll n w regs (leds, s2)
          in (Polling, s3))"

subsection \<open>Reading the log and the resources\<close>

text \<open>The stores of a log, oldest first: where to, and what.\<close>

fun stores :: "event list \<Rightarrow> (addr \<times> u32) list" where
  "stores [] = []"
| "stores (Store p v # evs) = (p, v) # stores evs"
| "stores (ev # evs) = stores evs"

text \<open>The pointers dereferenced in a log, stores and loads alike, oldest first.\<close>

fun accesses :: "event list \<Rightarrow> addr list" where
  "accesses [] = []"
| "accesses (Store p v # evs) = p # accesses evs"
| "accesses (Load p v # evs) = p # accesses evs"
| "accesses (ev # evs) = accesses evs"

text \<open>
  The offsets one round of each loop accesses, in program order: \<^verbatim>\<open>axi3_h2f_lw.c\<close>
  stores to \<^verbatim>\<open>reg0\<close> and loads \<^verbatim>\<open>reg0\<close> to \<^verbatim>\<open>reg3\<close>; \<^verbatim>\<open>gpigpo.c\<close>
  stores to \<^verbatim>\<open>gpo\<close> and loads \<^verbatim>\<open>status\<close>, \<^verbatim>\<open>control\<close>, \<^verbatim>\<open>gpi\<close> and
  \<^verbatim>\<open>gpo\<close>.
\<close>

definition axi3_round_offsets :: "int list" where
  "axi3_round_offsets = [0, 0, 4, 8, 12]"

definition gpigpo_round_offsets :: "int list" where
  "gpigpo_round_offsets =
     [FPGA_MANAGER_GPO, FPGA_MANAGER_STAT, FPGA_MANAGER_CTRL, FPGA_MANAGER_GPI,
      FPGA_MANAGER_GPO]"

fun is_mmap :: "event \<Rightarrow> bool" where
  "is_mmap (SysMmap len fd off p) = True"
| "is_mmap ev = False"

text \<open>
  A window is fully mapped in a process state when its descriptor is open, its mapping is
  established at a base other than \<open>MAP_FAILED\<close> and its length is positive. It is fully
  unmapped when the descriptor is not open and nothing is mapped at its base.
\<close>

definition fully_mapped :: "os \<Rightarrow> window \<Rightarrow> bool" where
  "fully_mapped s w \<longleftrightarrow>
     handle w \<in> fds s \<and> handle w \<noteq> - 1
     \<and> (virt_base w, length_w w, handle w, phys_base w) \<in> set (maps s)
     \<and> virt_base w \<noteq> MAP_FAILED \<and> 0 < length_w w"

definition fully_unmapped :: "os \<Rightarrow> window \<Rightarrow> bool" where
  "fully_unmapped s w \<longleftrightarrow>
     handle w \<notin> fds s
     \<and> \<not> list_ex (is_mapping_at (virt_base w) (length_w w)) (maps s)"

text \<open>An access of four bytes at \<open>off\<close> lies inside a window of \<open>len\<close> bytes.\<close>

definition in_bounds :: "nat \<Rightarrow> int \<Rightarrow> bool" where
  "in_bounds len off \<longleftrightarrow> 0 \<le> off \<and> off + 4 \<le> int len"

text \<open>Two physical ranges, each inside the address space, that share no byte.\<close>

definition ranges_disjoint :: "addr \<Rightarrow> nat \<Rightarrow> addr \<Rightarrow> nat \<Rightarrow> bool" where
  "ranges_disjoint b1 l1 b2 l2 \<longleftrightarrow>
     unat b1 + l1 \<le> 2 ^ 32 \<and> unat b2 + l2 \<le> 2 ^ 32
     \<and> (unat b1 + l1 \<le> unat b2 \<or> unat b2 + l2 \<le> unat b1)"

subsection \<open>The counter, and concrete platforms to run the programs on\<close>

text \<open>
  The values an LED counter running \<open>1, 2, \<dots>, 255, 0, 1, \<dots>\<close> shows in its first
  \<open>n\<close> rounds.
\<close>

definition led_values :: "nat \<Rightarrow> u32 list" where
  "led_values n = map (\<lambda>k. word_of_nat (k mod 256)) [1..<Suc n]"

text \<open>
  A process at the start of \<^verbatim>\<open>main\<close>: standard input, output and error open,
  nothing mapped, memory zeroed, nothing done yet.
\<close>

definition boot_state :: os where
  "boot_state = \<lparr>fds = {0, 1, 2}, maps = [], mem = (\<lambda>a. 0), trace = []\<rparr>"

text \<open>A platform that grants both calls, one that refuses the open, one that refuses the mapping.\<close>

definition platform_grants :: env where
  "platform_grants = \<lparr>open_ret = 3, mmap_ret = 0xB6D00000\<rparr>"

definition platform_denies_open :: env where
  "platform_denies_open = \<lparr>open_ret = - 1, mmap_ret = 0xB6D00000\<rparr>"

definition platform_denies_mmap :: env where
  "platform_denies_mmap = \<lparr>open_ret = 3, mmap_ret = MAP_FAILED\<rparr>"

text \<open>The windows the two programs hold once their mappings are granted.\<close>

definition bridge_window :: window where
  "bridge_window =
     \<lparr>virt_base = 0xB6D00000, length_w = H2F_LW_SIZE, handle = 3, phys_base = H2F_LW_BASE\<rparr>"

definition manager_window :: window where
  "manager_window =
     \<lparr>virt_base = 0xB6F00000, length_w = FPGA_MANAGER_SIZE, handle = 4,
      phys_base = FPGA_MANAGER_BASE\<rparr>"

section \<open>Auxiliary facts\<close>

subsection \<open>Bytes, logs and the counter\<close>

lemma addr_plus_distinct:
  "(a::addr) + 1 \<noteq> a" "a + 2 \<noteq> a" "a + 3 \<noteq> a"
  "a + 2 \<noteq> a + 1" "a + 3 \<noteq> a + 1" "a + 3 \<noteq> a + 2"
  by simp_all

lemma bytes_join:
  "(ucast (ucast v :: byte) :: u32)
     OR push_bit 8 (ucast (ucast (drop_bit 8 v) :: byte))
     OR push_bit 16 (ucast (ucast (drop_bit 16 v) :: byte))
     OR push_bit 24 (ucast (ucast (drop_bit 24 v) :: byte)) = v"
proof (rule bit_word_eqI)
  fix n :: nat
  assume "n < LENGTH(32)"
  then consider "n < 8" | "8 \<le> n" "n < 16" | "16 \<le> n" "n < 24" | "24 \<le> n" "n < 32"
    by fastforce
  then show "bit ((ucast (ucast v :: byte) :: u32)
     OR push_bit 8 (ucast (ucast (drop_bit 8 v) :: byte))
     OR push_bit 16 (ucast (ucast (drop_bit 16 v) :: byte))
     OR push_bit 24 (ucast (ucast (drop_bit 24 v) :: byte))) n = bit v n"
    by cases (auto simp add: bit_simps)
qed

lemma load32_store32_same: "load32 (store32 m a v) a = v"
  by (simp add: load32_def store32_def addr_plus_distinct bytes_join)


lemma stores_append: "stores (xs @ ys) = stores xs @ stores ys"
  by (induction xs rule: stores.induct) simp_all

lemma axi3_round_fst: "fst (axi3_round w regs (leds, s)) = led_next leds"
  by (cases regs) (simp add: axi3_round_def Let_def split: prod.splits)

lemma axi3_round_stores:
  "stores (trace (snd (axi3_round w regs (leds, s)))) = stores (trace s) @ [(fst regs, led_next leds)]"
  by (cases regs)
     (simp add: axi3_round_def Let_def read_ptr_def write_ptr_def printf_def fflush_def
        usleep_def log_def stores_append split: prod.splits)

lemma gpigpo_round_fst: "fst (gpigpo_round w regs (leds, s)) = led_next leds"
  by (cases regs) (simp add: gpigpo_round_def Let_def split: prod.splits)

lemma gpigpo_round_stores:
  "stores (trace (snd (gpigpo_round w regs (leds, s)))) = stores (trace s) @ [(fst (snd (snd regs)), led_next leds)]"
  by (cases regs)
     (simp add: gpigpo_round_def Let_def read_ptr_def write_ptr_def printf_def fflush_def
        usleep_def log_def stores_append split: prod.splits)

lemma led_next_count: "led_next (word_of_nat (j mod 256)) = word_of_nat (Suc j mod 256)"
proof (cases "j mod 256 = 255")
  case True
  then have "Suc j mod 256 = 0" by (simp add: mod_Suc)
  with True show ?thesis by (simp add: led_next_def)
next
  case False
  have lt: "j mod 256 < 256" by simp
  have "(word_of_nat (j mod 256) :: u32) \<noteq> 0xFF"
  proof
    assume "(word_of_nat (j mod 256) :: u32) = 0xFF"
    then have "unat (word_of_nat (j mod 256) :: u32) = unat (0xFF :: u32)" by simp
    moreover have "unat (word_of_nat (j mod 256) :: u32) = j mod 256"
      using lt by (simp add: unat_of_nat)
    ultimately show False using False by simp
  qed
  moreover have "Suc j mod 256 = Suc (j mod 256)" using False by (simp add: mod_Suc)
  ultimately show ?thesis by (simp add: led_next_def)
qed


lemma axi3_poll_count:
  "axi3_poll n w regs (word_of_nat (j mod 256), s) = (leds', s') \<Longrightarrow>
     leds' = word_of_nat ((j + n) mod 256)
     \<and> stores (trace s') =
         stores (trace s) @ map (\<lambda>k. (fst regs, word_of_nat ((j + k) mod 256))) [1..<Suc n]"
proof (induction n arbitrary: j s)
  case 0
  then show ?case by simp
next
  case (Suc n)
  obtain l1 s1 where r: "axi3_round w regs (word_of_nat (j mod 256), s) = (l1, s1)"
    by (cases "axi3_round w regs (word_of_nat (j mod 256), s)")
  from r have l1: "l1 = word_of_nat (Suc j mod 256)"
    using axi3_round_fst [of w regs "word_of_nat (j mod 256)" s] by (simp add: led_next_count)
  from r have w1: "stores (trace s1) = stores (trace s) @ [(fst regs, word_of_nat (Suc j mod 256))]"
    using axi3_round_stores [of w regs "word_of_nat (j mod 256)" s]
    by (simp add: led_next_count)
  from Suc.prems r l1
  have "axi3_poll n w regs (word_of_nat (Suc j mod 256), s1) = (leds', s')" by simp
  from Suc.IH [OF this]
  have ih: "leds' = word_of_nat ((Suc j + n) mod 256)"
    "stores (trace s') =
       stores (trace s1) @ map (\<lambda>k. (fst regs, word_of_nat ((Suc j + k) mod 256))) [1..<Suc n]"
    by simp_all
  have shift: "map (\<lambda>k. (fst regs, word_of_nat ((Suc j + k) mod 256) :: u32)) [1..<Suc n]
      = map (\<lambda>k. (fst regs, word_of_nat ((j + k) mod 256))) [2..<Suc (Suc n)]"
  proof -
    have "[2..<Suc (Suc n)] = map Suc [1..<Suc n]"
      by (simp add: map_Suc_upt numeral_2_eq_2)
    then show ?thesis by (simp add: comp_def)
  qed
  have split: "[1..<Suc (Suc n)] = 1 # [2..<Suc (Suc n)]"
    by (simp add: upt_conv_Cons numeral_2_eq_2)
  from ih w1 shift split show ?case by simp
qed

lemma gpigpo_poll_count:
  "gpigpo_poll n w regs (word_of_nat (j mod 256), s) = (leds', s') \<Longrightarrow>
     leds' = word_of_nat ((j + n) mod 256)
     \<and> stores (trace s') =
         stores (trace s) @ map (\<lambda>k. (fst (snd (snd regs)), word_of_nat ((j + k) mod 256))) [1..<Suc n]"
proof (induction n arbitrary: j s)
  case 0
  then show ?case by simp
next
  case (Suc n)
  obtain l1 s1 where r: "gpigpo_round w regs (word_of_nat (j mod 256), s) = (l1, s1)"
    by (cases "gpigpo_round w regs (word_of_nat (j mod 256), s)")
  from r have l1: "l1 = word_of_nat (Suc j mod 256)"
    using gpigpo_round_fst [of w regs "word_of_nat (j mod 256)" s] by (simp add: led_next_count)
  from r have w1: "stores (trace s1) = stores (trace s) @ [(fst (snd (snd regs)), word_of_nat (Suc j mod 256))]"
    using gpigpo_round_stores [of w regs "word_of_nat (j mod 256)" s]
    by (simp add: led_next_count)
  from Suc.prems r l1
  have "gpigpo_poll n w regs (word_of_nat (Suc j mod 256), s1) = (leds', s')" by simp
  from Suc.IH [OF this]
  have ih: "leds' = word_of_nat ((Suc j + n) mod 256)"
    "stores (trace s') =
       stores (trace s1) @ map (\<lambda>k. (fst (snd (snd regs)), word_of_nat ((Suc j + k) mod 256))) [1..<Suc n]"
    by simp_all
  have shift: "map (\<lambda>k. (fst (snd (snd regs)), word_of_nat ((Suc j + k) mod 256) :: u32)) [1..<Suc n]
      = map (\<lambda>k. (fst (snd (snd regs)), word_of_nat ((j + k) mod 256))) [2..<Suc (Suc n)]"
  proof -
    have "[2..<Suc (Suc n)] = map Suc [1..<Suc n]"
      by (simp add: map_Suc_upt numeral_2_eq_2)
    then show ?thesis by (simp add: comp_def)
  qed
  have split: "[1..<Suc (Suc n)] = 1 # [2..<Suc (Suc n)]"
    by (simp add: upt_conv_Cons numeral_2_eq_2)
  from ih w1 shift split show ?case by simp
qed

lemma v2p_register_pointer: "v2p w (register_pointer w off) = phys_base w + word_of_int off"
  by (simp add: v2p_def register_pointer_def)

lemma unat_base_plus:
  assumes "unat (b::addr) + m < 2 ^ 32"
  shows "unat (b + word_of_nat m) = unat b + m"
proof -
  from assms have "m < 2 ^ 32" by simp
  then have "unat (word_of_nat m :: addr) = m" by (simp add: unat_of_nat)
  with assms show ?thesis by (simp add: unat_add_lem [THEN iffD1])
qed

lemma in_boundsD: "in_bounds len off \<Longrightarrow> 0 \<le> off \<and> nat off + 4 \<le> len"
  unfolding in_bounds_def by linarith

lemma unat_byte_in_window:
  assumes "in_bounds len off" and "unat (b::addr) + len \<le> 2 ^ 32" and "k < 4"
  shows "unat (b + word_of_int off + word_of_nat k) = unat b + nat off + k"
proof -
  from in_boundsD [OF assms(1)] have off: "0 \<le> off" "nat off + 4 \<le> len" by simp_all
  from off(1) have "word_of_int off = (word_of_nat (nat off) :: addr)"
    by (rule word_of_int_nat)
  then have "b + word_of_int off + word_of_nat k = b + (word_of_nat (nat off) + word_of_nat k)"
    by (simp only: add.assoc)
  also have "\<dots> = b + word_of_nat (nat off + k)"
    by (simp only: of_nat_add)
  finally have e: "b + word_of_int off + word_of_nat k = b + word_of_nat (nat off + k)" .
  have "unat b + (nat off + k) < 2 ^ 32" using off(2) assms(2,3) by linarith
  from unat_base_plus [OF this] e show ?thesis by (simp only: add.assoc)
qed

lemma bytes_apart:
  assumes "ranges_disjoint b1 l1 b2 l2" and "in_bounds l1 o1" and "in_bounds l2 o2"
    and "i < 4" and "j < 4"
  shows "b2 + word_of_int o2 + word_of_nat j \<noteq> b1 + word_of_int o1 + word_of_nat i"
proof
  assume eq: "b2 + word_of_int o2 + word_of_nat j = b1 + word_of_int o1 + word_of_nat i"
  from assms(1) have r: "unat b1 + l1 \<le> 2 ^ 32" "unat b2 + l2 \<le> 2 ^ 32"
    "unat b1 + l1 \<le> unat b2 \<or> unat b2 + l2 \<le> unat b1"
    by (simp_all only: ranges_disjoint_def)
  have u1: "unat (b1 + word_of_int o1 + word_of_nat i) = unat b1 + nat o1 + i"
    by (rule unat_byte_in_window [OF assms(2) r(1) assms(4)])
  have u2: "unat (b2 + word_of_int o2 + word_of_nat j) = unat b2 + nat o2 + j"
    by (rule unat_byte_in_window [OF assms(3) r(2) assms(5)])
  from eq u1 u2 have "unat b2 + nat o2 + j = unat b1 + nat o1 + i" by (simp only:)
  moreover from in_boundsD [OF assms(2)] have "nat o1 + 4 \<le> l1" by simp
  moreover from in_boundsD [OF assms(3)] have "nat o2 + 4 \<le> l2" by simp
  ultimately show False using r(3) assms(4,5) by linarith
qed

lemma four_bytes: "{a, a + 1, a + 2, a + 3} = (\<lambda>i. (a::addr) + word_of_nat i) ` {..<4::nat}"
proof -
  have "{..<4::nat} = {0, 1, 2, 3}" by auto
  then show ?thesis by simp
qed

lemma store32_other: "x \<notin> {a, a + 1, a + 2, a + 3} \<Longrightarrow> store32 m a v x = m x"
  by (auto simp add: store32_def)

lemma load32_store32_apart:
  assumes "{b, b + 1, b + 2, b + 3} \<inter> {a, a + 1, a + 2, a + 3} = {}"
  shows "load32 (store32 m a v) b = load32 m b"
proof -
  from assms have n: "b \<notin> {a, a + 1, a + 2, a + 3}" "b + 1 \<notin> {a, a + 1, a + 2, a + 3}"
    "b + 2 \<notin> {a, a + 1, a + 2, a + 3}" "b + 3 \<notin> {a, a + 1, a + 2, a + 3}"
    by blast+
  have "store32 m a v b = m b" "store32 m a v (b + 1) = m (b + 1)"
    "store32 m a v (b + 2) = m (b + 2)" "store32 m a v (b + 3) = m (b + 3)"
    by (rule store32_other, rule n)+
  then show ?thesis by (simp only: load32_def)
qed

lemma windows_apart:
  assumes "ranges_disjoint b1 l1 b2 l2" and "in_bounds l1 o1" and "in_bounds l2 o2"
  shows "load32 (store32 m (b1 + word_of_int o1) v) (b2 + word_of_int o2)
           = load32 m (b2 + word_of_int o2)"
proof (rule load32_store32_apart)
  let ?A = "b1 + word_of_int o1" and ?B = "b2 + word_of_int o2"
  have "x \<notin> (\<lambda>i. ?A + word_of_nat i) ` {..<4::nat}"
    if "x \<in> (\<lambda>j. ?B + word_of_nat j) ` {..<4::nat}" for x
  proof
    assume "x \<in> (\<lambda>i. ?A + word_of_nat i) ` {..<4::nat}"
    then obtain i where i: "i < 4" "x = ?A + word_of_nat i" by blast
    from that obtain j where j: "j < 4" "x = ?B + word_of_nat j" by blast
    from bytes_apart [OF assms i(1) j(1)] i(2) j(2) show False by (simp only:)
  qed
  then show "{?B, ?B + 1, ?B + 2, ?B + 3} \<inter> {?A, ?A + 1, ?A + 2, ?A + 3} = {}"
    unfolding four_bytes by blast
qed

subsection \<open>Mapping and unmapping\<close>

lemma map_window_granted:
  assumes "open_ret e \<noteq> - 1" and "mmap_ret e \<noteq> MAP_FAILED"
  shows "map_window e base len s0 =
     (Inr \<lparr>virt_base = mmap_ret e, length_w = len, handle = open_ret e, phys_base = base\<rparr>,
      s0\<lparr>fds := insert (open_ret e) (fds s0),
         maps := (mmap_ret e, len, open_ret e, base) # maps s0,
         trace := trace s0 @ [SysOpen (open_ret e), SysMmap len (open_ret e) base (mmap_ret e)]\<rparr>)"
  using assms by (simp add: map_window_def sys_open_def sys_mmap_def log_def Let_def)

lemma led_values_le: "v \<in> set (led_values n) \<Longrightarrow> v \<le> 0xFF"
proof -
  assume "v \<in> set (led_values n)"
  then obtain k where v: "v = word_of_nat (k mod 256)" by (auto simp add: led_values_def)
  have "k mod 256 \<le> 255" by simp
  then have "unat (word_of_nat (k mod 256) :: u32) \<le> 255"
    by (simp add: unat_of_nat)
  then show ?thesis using v by (simp add: word_le_nat_alt)
qed

lemma led_values_3: "led_values 3 = [1, 2, 3]"
  by (simp add: led_values_def upt_rec)

lemma filter_keeps_others:
  assumes "\<not> list_ex (is_mapping_at p len) ms"
  shows "filter (\<lambda>m. \<not> is_mapping_at p len m) ms = ms"
  using assms by (induction ms) auto

lemma filter_drops_window:
  "\<not> list_ex (is_mapping_at p len)
       (filter (\<lambda>m. \<not> is_mapping_at p len m) ms)"
  by (induction ms) auto

lemma unmap_window_fully_unmapped: "fully_unmapped (unmap_window w s) w"
  by (simp add: fully_unmapped_def unmap_window_def sys_close_def sys_munmap_def log_def
      filter_drops_window)

lemma axi3_round_resources:
  "fds (snd (axi3_round w regs st)) = fds (snd st)
   \<and> maps (snd (axi3_round w regs st)) = maps (snd st)"
  by (cases regs; cases st)
     (simp add: axi3_round_def Let_def read_ptr_def write_ptr_def printf_def fflush_def
        usleep_def log_def split: prod.splits)

lemma gpigpo_round_resources:
  "fds (snd (gpigpo_round w regs st)) = fds (snd st)
   \<and> maps (snd (gpigpo_round w regs st)) = maps (snd st)"
  by (cases regs; cases st)
     (simp add: gpigpo_round_def Let_def read_ptr_def write_ptr_def printf_def fflush_def
        usleep_def log_def split: prod.splits)

lemma axi3_poll_resources:
  "fds (snd (axi3_poll n w regs st)) = fds (snd st)
   \<and> maps (snd (axi3_poll n w regs st)) = maps (snd st)"
  by (induction n arbitrary: st) (simp_all add: axi3_round_resources)

lemma gpigpo_poll_resources:
  "fds (snd (gpigpo_poll n w regs st)) = fds (snd st)
   \<and> maps (snd (gpigpo_poll n w regs st)) = maps (snd st)"
  by (induction n arbitrary: st) (simp_all add: gpigpo_round_resources)

lemma map_window_all_or_nothing:
  assumes "open_ret e \<notin> fds s0" and "0 < len"
  shows "case map_window e base len s0 of
           (Inl err, s1) \<Rightarrow> fds s1 = fds s0 \<and> maps s1 = maps s0
         | (Inr w, s1) \<Rightarrow>
             w = \<lparr>virt_base = mmap_ret e, length_w = len, handle = open_ret e,
                   phys_base = base\<rparr>
             \<and> fully_mapped s1 w"
  using assms
  by (simp add: map_window_def sys_open_def sys_mmap_def sys_close_def printf_def log_def
      Let_def fully_mapped_def)

subsection \<open>The pointers the programs dereference\<close>

lemma accesses_append: "accesses (xs @ ys) = accesses xs @ accesses ys"
  by (induction xs rule: accesses.induct) simp_all

lemma axi3_round_accesses:
  "accesses (trace (snd (axi3_round w (reg0, reg1, reg2, reg3) st)))
     = accesses (trace (snd st)) @ [reg0, reg0, reg1, reg2, reg3]"
  by (cases st)
     (simp add: axi3_round_def Let_def read_ptr_def write_ptr_def printf_def fflush_def
        usleep_def log_def accesses_append split: prod.splits)

lemma gpigpo_round_accesses:
  "accesses (trace (snd (gpigpo_round w (status, control, gpo, gpi) st)))
     = accesses (trace (snd st)) @ [gpo, status, control, gpi, gpo]"
  by (cases st)
     (simp add: gpigpo_round_def Let_def read_ptr_def write_ptr_def printf_def fflush_def
        usleep_def log_def accesses_append split: prod.splits)

lemma axi3_poll_accesses:
  "accesses (trace (snd (axi3_poll n w (reg0, reg1, reg2, reg3) st)))
     = accesses (trace (snd st)) @ concat (replicate n [reg0, reg0, reg1, reg2, reg3])"
  by (induction n arbitrary: st) (simp_all add: axi3_round_accesses)

lemma gpigpo_poll_accesses:
  "accesses (trace (snd (gpigpo_poll n w (status, control, gpo, gpi) st)))
     = accesses (trace (snd st)) @ concat (replicate n [gpo, status, control, gpi, gpo])"
  by (induction n arbitrary: st) (simp_all add: gpigpo_round_accesses)

section \<open>The claims\<close>

text \<open>
  Claim C1, as the code has it. The spec asks that an offset with \<open>offset < 0\<close> or
  \<open>offset + 4 > length\<close> be rejected with an out-of-bounds error before any access.
  The programs never compare an offset with the length, and nothing is ever rejected.
  What keeps their accesses inside the window is that the offsets are constants in range.
  When the mapping is granted, the pointers dereferenced in the first \<open>n\<close> rounds of
  either program are exactly, round after round, \<open>virt_base + offset\<close> for the five
  offsets of a round, and each of those offsets satisfies \<open>0 \<le> offset\<close> and
  \<open>offset + 4 \<le> length\<close>. For every offset in range, in a mapping that ends inside the
  address space, the four bytes accessed are at \<open>virt_base + offset + k\<close> for \<open>k < 4\<close>,
  with no truncation or wrap-around, and each lies inside the window.
\<close>

theorem accesses_stay_in_range:
  assumes "open_ret e \<noteq> - 1" and "mmap_ret e \<noteq> MAP_FAILED"
  shows "accesses (trace (snd (axi3_main e n s0)))
           = accesses (trace s0)
             @ concat (replicate n (map (\<lambda>off. mmap_ret e + word_of_int off) axi3_round_offsets))
    \<and> accesses (trace (snd (gpigpo_main e n s0)))
           = accesses (trace s0)
             @ concat (replicate n (map (\<lambda>off. mmap_ret e + word_of_int off) gpigpo_round_offsets))
    \<and> (\<forall>off \<in> set axi3_round_offsets. in_bounds H2F_LW_SIZE off)
    \<and> (\<forall>off \<in> set gpigpo_round_offsets. in_bounds FPGA_MANAGER_SIZE off)
    \<and> (in_bounds (length_w w) off \<and> unat (virt_base w) + length_w w \<le> 2 ^ 32 \<and> k < 4
         \<longrightarrow> unat (register_pointer w off + word_of_nat k) = unat (virt_base w) + nat off + k
             \<and> nat off + k < length_w w)"
proof -
  have a: "accesses (trace (snd (axi3_main e n s0)))
           = accesses (trace s0)
             @ concat (replicate n (map (\<lambda>off. mmap_ret e + word_of_int off) axi3_round_offsets))"
  proof -
    let ?w = "\<lparr>virt_base = mmap_ret e, length_w = H2F_LW_SIZE, handle = open_ret e,
                phys_base = H2F_LW_BASE\<rparr>"
    let ?s1 = "s0\<lparr>fds := insert (open_ret e) (fds s0),
         maps := (mmap_ret e, H2F_LW_SIZE, open_ret e, H2F_LW_BASE) # maps s0,
         trace := trace s0 @ [SysOpen (open_ret e),
                    SysMmap H2F_LW_SIZE (open_ret e) H2F_LW_BASE (mmap_ret e)]\<rparr>"
    let ?s2 = "printf (''Reg0       | Reg1       | Reg2       | Reg3'' @ [CHR 0x0A]) [] ?s1"
    have m: "map_window e H2F_LW_BASE H2F_LW_SIZE s0 = (Inr ?w, ?s1)"
      by (rule map_window_granted [OF assms])
    have run: "snd (axi3_main e n s0) = snd (axi3_poll n ?w (axi3_regs ?w) (0, ?s2))"
      by (simp add: axi3_main_def m Let_def split: prod.splits)
    have r: "axi3_regs ?w = (mmap_ret e + word_of_int 0, mmap_ret e + word_of_int 4,
                mmap_ret e + word_of_int 8, mmap_ret e + word_of_int 12)"
      by (simp add: axi3_regs_def register_pointer_def)
    have "accesses (trace ?s2) = accesses (trace s0)"
      by (simp add: printf_def log_def accesses_append)
    then show ?thesis
      unfolding run r axi3_poll_accesses by (simp add: axi3_round_offsets_def)
  qed
  have g: "accesses (trace (snd (gpigpo_main e n s0)))
           = accesses (trace s0)
             @ concat (replicate n (map (\<lambda>off. mmap_ret e + word_of_int off) gpigpo_round_offsets))"
  proof -
    let ?w = "\<lparr>virt_base = mmap_ret e, length_w = FPGA_MANAGER_SIZE, handle = open_ret e,
                phys_base = FPGA_MANAGER_BASE\<rparr>"
    let ?s1 = "s0\<lparr>fds := insert (open_ret e) (fds s0),
         maps := (mmap_ret e, FPGA_MANAGER_SIZE, open_ret e, FPGA_MANAGER_BASE) # maps s0,
         trace := trace s0 @ [SysOpen (open_ret e),
                    SysMmap FPGA_MANAGER_SIZE (open_ret e) FPGA_MANAGER_BASE (mmap_ret e)]\<rparr>"
    let ?s2 = "printf (''Status     | Control    | GPI        | GPO'' @ [CHR 0x0A]) [] ?s1"
    have m: "map_window e FPGA_MANAGER_BASE FPGA_MANAGER_SIZE s0 = (Inr ?w, ?s1)"
      by (rule map_window_granted [OF assms])
    have run: "snd (gpigpo_main e n s0) = snd (gpigpo_poll n ?w (gpigpo_regs ?w) (0, ?s2))"
      by (simp add: gpigpo_main_def m Let_def split: prod.splits)
    have r: "gpigpo_regs ?w
               = (mmap_ret e + word_of_int FPGA_MANAGER_STAT,
                  mmap_ret e + word_of_int FPGA_MANAGER_CTRL,
                  mmap_ret e + word_of_int FPGA_MANAGER_GPO,
                  mmap_ret e + word_of_int FPGA_MANAGER_GPI)"
      by (simp add: gpigpo_regs_def register_pointer_def)
    have "accesses (trace ?s2) = accesses (trace s0)"
      by (simp add: printf_def log_def accesses_append)
    then show ?thesis
      unfolding run r gpigpo_poll_accesses by (simp add: gpigpo_round_offsets_def)
  qed
  have b: "\<forall>off \<in> set axi3_round_offsets. in_bounds H2F_LW_SIZE off"
    by (simp add: axi3_round_offsets_def in_bounds_def H2F_LW_SIZE_def)
  have c: "\<forall>off \<in> set gpigpo_round_offsets. in_bounds FPGA_MANAGER_SIZE off"
    by (simp add: gpigpo_round_offsets_def in_bounds_def FPGA_MANAGER_SIZE_def
        FPGA_MANAGER_STAT_def FPGA_MANAGER_CTRL_def FPGA_MANAGER_GPO_def FPGA_MANAGER_GPI_def)
  have d: "unat (register_pointer w off + word_of_nat k) = unat (virt_base w) + nat off + k
            \<and> nat off + k < length_w w"
    if "in_bounds (length_w w) off" "unat (virt_base w) + length_w w \<le> 2 ^ 32" "k < 4"
  proof -
    from unat_byte_in_window [OF that]
    have "unat (register_pointer w off + word_of_nat k) = unat (virt_base w) + nat off + k"
      by (simp only: register_pointer_def)
    moreover from in_boundsD [OF that(1)] that(3) have "nat off + k < length_w w" by simp
    ultimately show ?thesis by simp
  qed
  from a g b c d show ?thesis by blast
qed

text \<open>One round of each program on a platform that grants both calls, and the last register of the configuration-manager window.\<close>

theorem accesses_stay_in_range_witness:
  "open_ret platform_grants \<noteq> - 1 \<and> mmap_ret platform_grants \<noteq> MAP_FAILED
   \<and> accesses (trace (snd (axi3_main platform_grants 1 boot_state)))
        = [0xB6D00000, 0xB6D00000, 0xB6D00004, 0xB6D00008, 0xB6D0000C]
   \<and> accesses (trace (snd (gpigpo_main platform_grants 1 boot_state)))
        = [0xB6D00010, 0xB6D00000, 0xB6D00004, 0xB6D00014, 0xB6D00010]
   \<and> FPGA_MANAGER_GPI \<in> set gpigpo_round_offsets
   \<and> in_bounds FPGA_MANAGER_SIZE FPGA_MANAGER_GPI
   \<and> 12 \<in> set axi3_round_offsets \<and> in_bounds H2F_LW_SIZE 12
   \<and> in_bounds (length_w manager_window) FPGA_MANAGER_GPI
   \<and> unat (virt_base manager_window) + length_w manager_window \<le> 2 ^ 32 \<and> (3::nat) < 4
   \<and> unat (register_pointer manager_window FPGA_MANAGER_GPI + 3) = 0xB6F00017
   \<and> nat FPGA_MANAGER_GPI + 3 < length_w manager_window"
proof -
  have h: "open_ret platform_grants \<noteq> - 1" "mmap_ret platform_grants \<noteq> MAP_FAILED"
    by (simp_all add: platform_grants_def MAP_FAILED_def)
  have i: "in_bounds (length_w manager_window) FPGA_MANAGER_GPI"
    "unat (virt_base manager_window) + length_w manager_window \<le> 2 ^ 32" "(3::nat) < 4"
    by (simp_all add: in_bounds_def manager_window_def FPGA_MANAGER_SIZE_def
        FPGA_MANAGER_GPI_def)
  have m: "FPGA_MANAGER_GPI \<in> set gpigpo_round_offsets" "12 \<in> set axi3_round_offsets"
    by (simp_all add: gpigpo_round_offsets_def axi3_round_offsets_def)
  have v: "unat (virt_base manager_window) = 0xB6F00000" "nat FPGA_MANAGER_GPI = 0x14"
    "trace boot_state = []" "mmap_ret platform_grants = 0xB6D00000"
    by (simp_all add: manager_window_def FPGA_MANAGER_GPI_def boot_state_def
        platform_grants_def)
  have l: "map (\<lambda>off. (0xB6D00000::addr) + word_of_int off) axi3_round_offsets
             = [0xB6D00000, 0xB6D00000, 0xB6D00004, 0xB6D00008, 0xB6D0000C]"
    "map (\<lambda>off. (0xB6D00000::addr) + word_of_int off) gpigpo_round_offsets
             = [0xB6D00010, 0xB6D00000, 0xB6D00004, 0xB6D00014, 0xB6D00010]"
    by (simp_all add: axi3_round_offsets_def gpigpo_round_offsets_def FPGA_MANAGER_STAT_def
        FPGA_MANAGER_CTRL_def FPGA_MANAGER_GPO_def FPGA_MANAGER_GPI_def)
  have a: "in_bounds FPGA_MANAGER_SIZE FPGA_MANAGER_GPI" "in_bounds H2F_LW_SIZE 12"
    using accesses_stay_in_range [OF h, of 1 boot_state manager_window FPGA_MANAGER_GPI 3] m
    by blast+
  from accesses_stay_in_range [OF h, of 1 boot_state manager_window FPGA_MANAGER_GPI 3]
    h i m v l a
  show ?thesis by simp
qed

text \<open>
  Claim C1 as written fails. In the configuration-manager window of \<open>0x1C\<close> bytes the
  offset \<open>0x1C\<close> is out of range, yet the pointer is computed, the store is performed at
  it and reaches the physical byte just past the window; the offset \<open>-4\<close> gives a
  pointer below the base. Nothing is rejected.
\<close>

theorem out_of_range_access_not_rejected:
  "\<not> in_bounds (length_w manager_window) 0x1C
   \<and> register_pointer manager_window 0x1C = 0xB6F0001C
   \<and> trace (write_reg manager_window 0x1C 1 boot_state) = [Store 0xB6F0001C 1]
   \<and> load32 (mem (write_reg manager_window 0x1C 1 boot_state)) (FPGA_MANAGER_BASE + 0x1C) = 1
   \<and> \<not> in_bounds (length_w manager_window) (- 4)
   \<and> register_pointer manager_window (- 4) = 0xB6EFFFFC"
proof -
  have a: "\<not> in_bounds (length_w manager_window) 0x1C"
    "\<not> in_bounds (length_w manager_window) (- 4)"
    by (simp_all add: in_bounds_def manager_window_def FPGA_MANAGER_SIZE_def)
  have b: "register_pointer manager_window 0x1C = 0xB6F0001C"
    by (simp add: register_pointer_def manager_window_def)
  have c: "trace (write_reg manager_window 0x1C 1 boot_state) = [Store 0xB6F0001C 1]"
    by (simp add: write_reg_def write_ptr_def log_def b boot_state_def)
  have "mem (write_reg manager_window 0x1C 1 boot_state)
          = store32 (mem boot_state) (FPGA_MANAGER_BASE + 0x1C) 1"
    by (simp add: write_reg_def write_ptr_def log_def v2p_register_pointer manager_window_def)
  then have d: "load32 (mem (write_reg manager_window 0x1C 1 boot_state))
                  (FPGA_MANAGER_BASE + 0x1C) = 1"
    by (simp only: load32_store32_same)
  have e: "register_pointer manager_window (- 4) = 0xB6EFFFFC"
    by (simp add: register_pointer_def manager_window_def)
  from a b c d e show ?thesis by simp
qed

text \<open>
  Claim C2. When \<^verbatim>\<open>open\<close> succeeds and \<^verbatim>\<open>mmap\<close> returns \<open>MAP_FAILED\<close>, the
  mapping error is reported, and the descriptor opened in this call is closed before the
  return: the close is the last thing done, the descriptor is not open afterwards, no
  mapping was added, and both programs exit with status 1.
\<close>

theorem failed_mmap_closes_handle:
  assumes "open_ret e \<noteq> - 1" and "mmap_ret e = MAP_FAILED"
  shows "fst (map_window e base len s0) = Inl MappingError
    \<and> trace (snd (map_window e base len s0))
         = trace s0 @ [SysOpen (open_ret e), SysMmap len (open_ret e) base MAP_FAILED,
                       Printf (''Error performing mmap'' @ [CHR 0x0A]) [],
                       SysClose (open_ret e)]
    \<and> open_ret e \<notin> fds (snd (map_window e base len s0))
    \<and> fds (snd (map_window e base len s0)) = fds s0 - {open_ret e}
    \<and> maps (snd (map_window e base len s0)) = maps s0
    \<and> fst (axi3_main e n s0) = Exited 1
    \<and> fst (gpigpo_main e n s0) = Exited 1"
  using assms
  by (simp add: map_window_def sys_open_def sys_mmap_def sys_close_def printf_def log_def
      Let_def axi3_main_def gpigpo_main_def)

text \<open>On a platform that refuses the mapping, descriptor 3 is opened and closed again.\<close>

theorem failed_mmap_closes_handle_witness:
  "open_ret platform_denies_mmap \<noteq> - 1 \<and> mmap_ret platform_denies_mmap = MAP_FAILED
   \<and> fst (map_window platform_denies_mmap FPGA_MANAGER_BASE FPGA_MANAGER_SIZE boot_state)
        = Inl MappingError
   \<and> 3 \<notin> fds (snd (map_window platform_denies_mmap FPGA_MANAGER_BASE FPGA_MANAGER_SIZE
                       boot_state))
   \<and> fds (snd (map_window platform_denies_mmap FPGA_MANAGER_BASE FPGA_MANAGER_SIZE boot_state))
        = {0, 1, 2}"
proof -
  have h: "open_ret platform_denies_mmap \<noteq> - 1" "mmap_ret platform_denies_mmap = MAP_FAILED"
    by (simp_all add: platform_denies_mmap_def)
  have b: "fds boot_state = {0, 1, 2}" "open_ret platform_denies_mmap = 3"
    by (simp_all add: boot_state_def platform_denies_mmap_def)
  from failed_mmap_closes_handle [OF h, of FPGA_MANAGER_BASE FPGA_MANAGER_SIZE boot_state] h b
  show ?thesis by simp
qed

text \<open>
  Claim C4. For every window, offset and 32-bit value \<open>v\<close> (so also for \<open>0\<close>,
  \<open>0xFFFFFFFF\<close>, \<open>1\<close> and \<open>0x80000000\<close>), a write of \<open>v\<close> followed at once by a
  read at the same offset returns exactly \<open>v\<close>, memory being a store of bytes that keeps
  what was written: the four bytes are split and joined again without loss.
\<close>

theorem write_then_read_returns_value:
  "fst (read_reg w off (write_reg w off v s)) = v"
  by (simp add: read_reg_def write_reg_def read_ptr_def write_ptr_def log_def Let_def
      load32_store32_same)

text \<open>
  Claim C5. When \<^verbatim>\<open>open\<close> returns \<open>-1\<close>, the device-open error is reported and
  nothing else is attempted: the only things done are the open and the message, no
  \<^verbatim>\<open>mmap\<close> call is in the log, descriptors and mappings are as before, and both
  programs exit with status 1.
\<close>

theorem failed_open_attempts_no_mapping:
  assumes "open_ret e = - 1"
  shows "fst (map_window e base len s0) = Inl DeviceOpenError
    \<and> trace (snd (map_window e base len s0))
         = trace s0 @ [SysOpen (- 1), Printf (''Error opening /dev/mem'' @ [CHR 0x0A]) []]
    \<and> \<not> list_ex is_mmap (drop (length (trace s0)) (trace (snd (map_window e base len s0))))
    \<and> fds (snd (map_window e base len s0)) = fds s0
    \<and> maps (snd (map_window e base len s0)) = maps s0
    \<and> fst (axi3_main e n s0) = Exited 1
    \<and> fst (gpigpo_main e n s0) = Exited 1"
  using assms
  by (simp add: map_window_def sys_open_def printf_def log_def Let_def axi3_main_def
      gpigpo_main_def)

text \<open>On a platform that refuses the open, only the open and the message happen.\<close>

theorem failed_open_attempts_no_mapping_witness:
  "open_ret platform_denies_open = - 1
   \<and> fst (map_window platform_denies_open H2F_LW_BASE H2F_LW_SIZE boot_state) = Inl DeviceOpenError
   \<and> trace (snd (map_window platform_denies_open H2F_LW_BASE H2F_LW_SIZE boot_state))
        = [SysOpen (- 1), Printf (''Error opening /dev/mem'' @ [CHR 0x0A]) []]
   \<and> fds (snd (map_window platform_denies_open H2F_LW_BASE H2F_LW_SIZE boot_state)) = {0, 1, 2}
   \<and> maps (snd (map_window platform_denies_open H2F_LW_BASE H2F_LW_SIZE boot_state)) = []"
proof -
  have h: "open_ret platform_denies_open = - 1"
    by (simp add: platform_denies_open_def)
  have b: "trace boot_state = []" "fds boot_state = {0, 1, 2}" "maps boot_state = []"
    by (simp_all add: boot_state_def)
  from failed_open_attempts_no_mapping [OF h, of H2F_LW_BASE H2F_LW_SIZE boot_state] h b
  show ?thesis by simp
qed

text \<open>
  Claim C6. When the platform grants the open and the mapping (with a descriptor that was
  not open and a range that was not mapped), mapping succeeds, and unmapping at once
  afterwards calls \<^verbatim>\<open>munmap\<close> on the range and \<^verbatim>\<open>close\<close> on the descriptor:
  the window is fully unmapped, and the open descriptors and the mappings are exactly those
  from before the map.
\<close>

theorem map_then_unmap_releases:
  assumes "open_ret e \<noteq> - 1" and "mmap_ret e \<noteq> MAP_FAILED"
    and "open_ret e \<notin> fds s0"
    and "\<not> list_ex (is_mapping_at (mmap_ret e) len) (maps s0)"
  shows "case map_window e base len s0 of
           (Inl err, s1) \<Rightarrow> False
         | (Inr w, s1) \<Rightarrow>
             fully_unmapped (unmap_window w s1) w
             \<and> fds (unmap_window w s1) = fds s0
             \<and> maps (unmap_window w s1) = maps s0
             \<and> trace (unmap_window w s1)
                  = trace s1 @ [SysMunmap (virt_base w) (length_w w), SysClose (handle w)]"
proof -
  let ?w = "\<lparr>virt_base = mmap_ret e, length_w = len, handle = open_ret e, phys_base = base\<rparr>"
  let ?s1 = "s0\<lparr>fds := insert (open_ret e) (fds s0),
         maps := (mmap_ret e, len, open_ret e, base) # maps s0,
         trace := trace s0 @ [SysOpen (open_ret e), SysMmap len (open_ret e) base (mmap_ret e)]\<rparr>"
  have m: "map_window e base len s0 = (Inr ?w, ?s1)"
    by (rule map_window_granted [OF assms(1,2)])
  have u: "fully_unmapped (unmap_window ?w ?s1) ?w"
    by (rule unmap_window_fully_unmapped)
  have f: "fds (unmap_window ?w ?s1) = fds s0"
    using assms(3) by (simp add: unmap_window_def sys_close_def sys_munmap_def log_def)
  have p: "maps (unmap_window ?w ?s1) = maps s0"
    using filter_keeps_others [OF assms(4)]
    by (simp add: unmap_window_def sys_close_def sys_munmap_def log_def)
  have t: "trace (unmap_window ?w ?s1)
             = trace ?s1 @ [SysMunmap (virt_base ?w) (length_w ?w), SysClose (handle ?w)]"
    by (simp add: unmap_window_def sys_close_def sys_munmap_def log_def)
  from u f p t show ?thesis unfolding m by simp
qed

text \<open>From the start state, on a platform that grants both calls.\<close>

theorem map_then_unmap_releases_witness:
  "open_ret platform_grants \<noteq> - 1 \<and> mmap_ret platform_grants \<noteq> MAP_FAILED
   \<and> open_ret platform_grants \<notin> fds boot_state
   \<and> \<not> list_ex (is_mapping_at (mmap_ret platform_grants) H2F_LW_SIZE)
         (maps boot_state)
   \<and> map_window platform_grants H2F_LW_BASE H2F_LW_SIZE boot_state
        = (Inr bridge_window,
           boot_state\<lparr>fds := {3, 0, 1, 2},
             maps := [(0xB6D00000, H2F_LW_SIZE, 3, H2F_LW_BASE)],
             trace := [SysOpen 3, SysMmap H2F_LW_SIZE 3 H2F_LW_BASE 0xB6D00000]\<rparr>)
   \<and> fds (unmap_window bridge_window
             (snd (map_window platform_grants H2F_LW_BASE H2F_LW_SIZE boot_state))) = {0, 1, 2}
   \<and> maps (unmap_window bridge_window
             (snd (map_window platform_grants H2F_LW_BASE H2F_LW_SIZE boot_state))) = []"
proof -
  have h: "open_ret platform_grants \<noteq> - 1" "mmap_ret platform_grants \<noteq> MAP_FAILED"
    "open_ret platform_grants \<notin> fds boot_state"
    "\<not> list_ex (is_mapping_at (mmap_ret platform_grants) H2F_LW_SIZE)
         (maps boot_state)"
    by (simp_all add: platform_grants_def MAP_FAILED_def boot_state_def)
  have m: "map_window platform_grants H2F_LW_BASE H2F_LW_SIZE boot_state
        = (Inr bridge_window,
           boot_state\<lparr>fds := {3, 0, 1, 2},
             maps := [(0xB6D00000, H2F_LW_SIZE, 3, H2F_LW_BASE)],
             trace := [SysOpen 3, SysMmap H2F_LW_SIZE 3 H2F_LW_BASE 0xB6D00000]\<rparr>)"
    by (simp add: map_window_granted [OF h(1,2)])
       (simp add: platform_grants_def boot_state_def bridge_window_def)
  have b: "fds boot_state = {0, 1, 2}" "maps boot_state = []"
    by (simp_all add: boot_state_def)
  from map_then_unmap_releases [OF h, of H2F_LW_BASE] h m b show ?thesis by simp
qed

text \<open>
  Claim C7. Given a positive length and a platform that hands out a descriptor that was
  not open, a caller sees only two kinds of state. After a failed map (either error),
  descriptors and mappings are those from before the call. After a successful map, the
  window is fully mapped (descriptor open, mapping established at a valid base, length
  positive), and unmapping it leaves it fully unmapped. For the two programs: a run that
  has exited holds nothing, and a run that is polling, after any number of rounds, holds a
  fully mapped window.
\<close>

theorem window_is_mapped_or_unmapped:
  assumes "open_ret e \<notin> fds s0" and "0 < len"
  shows "(case map_window e base len s0 of
            (Inl err, s1) \<Rightarrow> fds s1 = fds s0 \<and> maps s1 = maps s0
          | (Inr w, s1) \<Rightarrow> fully_mapped s1 w \<and> fully_unmapped (unmap_window w s1) w)
    \<and> (case axi3_main e n s0 of
            (Exited c, s) \<Rightarrow> fds s = fds s0 \<and> maps s = maps s0
          | (Polling, s) \<Rightarrow>
              fully_mapped s \<lparr>virt_base = mmap_ret e, length_w = H2F_LW_SIZE,
                               handle = open_ret e, phys_base = H2F_LW_BASE\<rparr>)
    \<and> (case gpigpo_main e n s0 of
            (Exited c, s) \<Rightarrow> fds s = fds s0 \<and> maps s = maps s0
          | (Polling, s) \<Rightarrow>
              fully_mapped s \<lparr>virt_base = mmap_ret e, length_w = FPGA_MANAGER_SIZE,
                               handle = open_ret e, phys_base = FPGA_MANAGER_BASE\<rparr>)"
proof -
  have a: "case map_window e base len s0 of
            (Inl err, s1) \<Rightarrow> fds s1 = fds s0 \<and> maps s1 = maps s0
          | (Inr w, s1) \<Rightarrow> fully_mapped s1 w \<and> fully_unmapped (unmap_window w s1) w"
    using map_window_all_or_nothing [OF assms, of base]
    by (auto simp add: unmap_window_fully_unmapped split: prod.splits sum.splits)
  have b: "case axi3_main e n s0 of
            (Exited c, s) \<Rightarrow> fds s = fds s0 \<and> maps s = maps s0
          | (Polling, s) \<Rightarrow>
              fully_mapped s \<lparr>virt_base = mmap_ret e, length_w = H2F_LW_SIZE,
                               handle = open_ret e, phys_base = H2F_LW_BASE\<rparr>"
  proof -
    let ?w = "\<lparr>virt_base = mmap_ret e, length_w = H2F_LW_SIZE, handle = open_ret e,
                phys_base = H2F_LW_BASE\<rparr>"
    show ?thesis
    proof (cases "open_ret e = - 1 \<or> mmap_ret e = MAP_FAILED")
      case True
      with assms(1) show ?thesis
        by (auto simp add: axi3_main_def map_window_def sys_open_def sys_mmap_def sys_close_def
            printf_def log_def Let_def)
    next
      case False
      then have g: "open_ret e \<noteq> - 1" "mmap_ret e \<noteq> MAP_FAILED" by simp_all
      let ?s1 = "s0\<lparr>fds := insert (open_ret e) (fds s0),
         maps := (mmap_ret e, H2F_LW_SIZE, open_ret e, H2F_LW_BASE) # maps s0,
         trace := trace s0 @ [SysOpen (open_ret e),
                    SysMmap H2F_LW_SIZE (open_ret e) H2F_LW_BASE (mmap_ret e)]\<rparr>"
      let ?s2 = "printf (''Reg0       | Reg1       | Reg2       | Reg3'' @ [CHR 0x0A]) [] ?s1"
      have m: "map_window e H2F_LW_BASE H2F_LW_SIZE s0 = (Inr ?w, ?s1)"
        by (rule map_window_granted [OF g])
      have r1: "fds ?s1 = insert (open_ret e) (fds s0)"
        "maps ?s1 = (mmap_ret e, H2F_LW_SIZE, open_ret e, H2F_LW_BASE) # maps s0"
        by simp_all
      have run: "axi3_main e n s0 = (Polling, snd (axi3_poll n ?w (axi3_regs ?w) (0, ?s2)))"
        by (simp add: axi3_main_def m Let_def split: prod.splits)
      have "fds (snd (axi3_poll n ?w (axi3_regs ?w) (0, ?s2))) = fds ?s1"
        "maps (snd (axi3_poll n ?w (axi3_regs ?w) (0, ?s2))) = maps ?s1"
        using axi3_poll_resources [of n ?w "axi3_regs ?w" "(0, ?s2)"]
        by (simp_all add: printf_def log_def)
      with r1 g have "fully_mapped (snd (axi3_poll n ?w (axi3_regs ?w) (0, ?s2))) ?w"
        by (simp add: fully_mapped_def H2F_LW_SIZE_def)
      with run show ?thesis by simp
    qed
  qed
  have c: "case gpigpo_main e n s0 of
            (Exited c, s) \<Rightarrow> fds s = fds s0 \<and> maps s = maps s0
          | (Polling, s) \<Rightarrow>
              fully_mapped s \<lparr>virt_base = mmap_ret e, length_w = FPGA_MANAGER_SIZE,
                               handle = open_ret e, phys_base = FPGA_MANAGER_BASE\<rparr>"
  proof -
    let ?w = "\<lparr>virt_base = mmap_ret e, length_w = FPGA_MANAGER_SIZE, handle = open_ret e,
                phys_base = FPGA_MANAGER_BASE\<rparr>"
    show ?thesis
    proof (cases "open_ret e = - 1 \<or> mmap_ret e = MAP_FAILED")
      case True
      with assms(1) show ?thesis
        by (auto simp add: gpigpo_main_def map_window_def sys_open_def sys_mmap_def sys_close_def
            printf_def log_def Let_def)
    next
      case False
      then have g: "open_ret e \<noteq> - 1" "mmap_ret e \<noteq> MAP_FAILED" by simp_all
      let ?s1 = "s0\<lparr>fds := insert (open_ret e) (fds s0),
         maps := (mmap_ret e, FPGA_MANAGER_SIZE, open_ret e, FPGA_MANAGER_BASE) # maps s0,
         trace := trace s0 @ [SysOpen (open_ret e),
                    SysMmap FPGA_MANAGER_SIZE (open_ret e) FPGA_MANAGER_BASE (mmap_ret e)]\<rparr>"
      let ?s2 = "printf (''Status     | Control    | GPI        | GPO'' @ [CHR 0x0A]) [] ?s1"
      have m: "map_window e FPGA_MANAGER_BASE FPGA_MANAGER_SIZE s0 = (Inr ?w, ?s1)"
        by (rule map_window_granted [OF g])
      have r1: "fds ?s1 = insert (open_ret e) (fds s0)"
        "maps ?s1 = (mmap_ret e, FPGA_MANAGER_SIZE, open_ret e, FPGA_MANAGER_BASE) # maps s0"
        by simp_all
      have run: "gpigpo_main e n s0 = (Polling, snd (gpigpo_poll n ?w (gpigpo_regs ?w) (0, ?s2)))"
        by (simp add: gpigpo_main_def m Let_def split: prod.splits)
      have "fds (snd (gpigpo_poll n ?w (gpigpo_regs ?w) (0, ?s2))) = fds ?s1"
        "maps (snd (gpigpo_poll n ?w (gpigpo_regs ?w) (0, ?s2))) = maps ?s1"
        using gpigpo_poll_resources [of n ?w "gpigpo_regs ?w" "(0, ?s2)"]
        by (simp_all add: printf_def log_def)
      with r1 g have "fully_mapped (snd (gpigpo_poll n ?w (gpigpo_regs ?w) (0, ?s2))) ?w"
        by (simp add: fully_mapped_def FPGA_MANAGER_SIZE_def)
      with run show ?thesis by simp
    qed
  qed
  from a b c show ?thesis by blast
qed

text \<open>The bridge program on a platform that grants both calls.\<close>

theorem window_is_mapped_or_unmapped_witness:
  "open_ret platform_grants \<notin> fds boot_state \<and> 0 < H2F_LW_SIZE
   \<and> fst (map_window platform_grants H2F_LW_BASE H2F_LW_SIZE boot_state) = Inr bridge_window
   \<and> fully_mapped (snd (map_window platform_grants H2F_LW_BASE H2F_LW_SIZE boot_state))
         bridge_window
   \<and> fully_unmapped
         (unmap_window bridge_window
            (snd (map_window platform_grants H2F_LW_BASE H2F_LW_SIZE boot_state)))
         bridge_window
   \<and> fst (axi3_main platform_grants 2 boot_state) = Polling
   \<and> fully_mapped (snd (axi3_main platform_grants 2 boot_state)) bridge_window"
proof -
  have h: "open_ret platform_grants \<notin> fds boot_state" "0 < H2F_LW_SIZE"
    by (simp_all add: platform_grants_def boot_state_def H2F_LW_SIZE_def)
  have g: "open_ret platform_grants \<noteq> - 1" "mmap_ret platform_grants \<noteq> MAP_FAILED"
    by (simp_all add: platform_grants_def MAP_FAILED_def)
  have w: "\<lparr>virt_base = mmap_ret platform_grants, length_w = H2F_LW_SIZE,
            handle = open_ret platform_grants, phys_base = H2F_LW_BASE\<rparr> = bridge_window"
    by (simp add: platform_grants_def bridge_window_def)
  have m: "fst (map_window platform_grants H2F_LW_BASE H2F_LW_SIZE boot_state) = Inr bridge_window"
    by (simp add: map_window_granted [OF g] w)
  have p: "fst (axi3_main platform_grants 2 boot_state) = Polling"
    by (simp add: axi3_main_def map_window_granted [OF g] Let_def split: prod.splits)
  from window_is_mapped_or_unmapped [OF h, of H2F_LW_BASE 2] h m p w
  show ?thesis by (auto split: prod.splits sum.splits outcome.splits)
qed

text \<open>
  Claim C8. Every offset at which the programs compute a register pointer satisfies
  \<open>0 \<le> offset\<close> and \<open>offset + 4 \<le> length\<close> and is a multiple of 4: the offsets
  0, 4, 8, 12 in the window of \<open>0x00200000\<close> bytes, and \<open>0x00\<close>, \<open>0x04\<close>, \<open>0x10\<close>,
  \<open>0x14\<close> in the window of \<open>0x1C\<close> bytes. The register pointers of the programs are
  the pointers at exactly these offsets.
\<close>

theorem register_offsets_in_bounds:
  "(\<forall>off \<in> set axi3_offsets. in_bounds H2F_LW_SIZE off \<and> off mod 4 = 0)
   \<and> (\<forall>off \<in> set gpigpo_offsets. in_bounds FPGA_MANAGER_SIZE off \<and> off mod 4 = 0)
   \<and> (case axi3_regs w of (reg0, reg1, reg2, reg3) \<Rightarrow>
         [reg0, reg1, reg2, reg3] = map (register_pointer w) axi3_offsets)
   \<and> (case gpigpo_regs w of (status, control, gpo, gpi) \<Rightarrow>
         [status, control, gpo, gpi] = map (register_pointer w) gpigpo_offsets)"
  by (simp add: axi3_offsets_def gpigpo_offsets_def in_bounds_def H2F_LW_SIZE_def
      FPGA_MANAGER_SIZE_def FPGA_MANAGER_STAT_def FPGA_MANAGER_CTRL_def FPGA_MANAGER_GPO_def
      FPGA_MANAGER_GPI_def axi3_regs_def gpigpo_regs_def)

text \<open>The last register of each program.\<close>

theorem register_offsets_in_bounds_witness:
  "FPGA_MANAGER_GPI \<in> set gpigpo_offsets \<and> in_bounds FPGA_MANAGER_SIZE FPGA_MANAGER_GPI
   \<and> FPGA_MANAGER_GPI mod 4 = 0
   \<and> 12 \<in> set axi3_offsets \<and> in_bounds H2F_LW_SIZE 12 \<and> (12::int) mod 4 = 0"
proof -
  have m: "FPGA_MANAGER_GPI \<in> set gpigpo_offsets" "12 \<in> set axi3_offsets"
    by (simp_all add: gpigpo_offsets_def axi3_offsets_def)
  with register_offsets_in_bounds [of bridge_window] show ?thesis by blast
qed

text \<open>
  Claim C9. For two windows over physical ranges that share no byte, a write through one
  window at an offset in its range does not change what a read through the other window
  returns at an offset in its range. The bridge window at \<open>0xFF200000\<close> of length
  \<open>0x00200000\<close> and the configuration-manager window at \<open>0xFF706000\<close> are such a
  pair.
\<close>

theorem windows_do_not_interfere:
  assumes "ranges_disjoint (phys_base w1) (length_w w1) (phys_base w2) (length_w w2)"
    and "in_bounds (length_w w1) o1" and "in_bounds (length_w w2) o2"
  shows "fst (read_reg w2 o2 (write_reg w1 o1 v s)) = fst (read_reg w2 o2 s)"
proof -
  have "load32 (store32 (mem s) (phys_base w1 + word_of_int o1) v) (phys_base w2 + word_of_int o2)
          = load32 (mem s) (phys_base w2 + word_of_int o2)"
    by (rule windows_apart [OF assms])
  then show ?thesis
    by (simp add: read_reg_def write_reg_def read_ptr_def write_ptr_def log_def Let_def
        v2p_register_pointer)
qed

text \<open>The two windows of the programs: a store to \<^verbatim>\<open>reg0\<close> leaves \<^verbatim>\<open>gpo\<close> as it was.\<close>

theorem windows_do_not_interfere_witness:
  "ranges_disjoint (phys_base bridge_window) (length_w bridge_window)
       (phys_base manager_window) (length_w manager_window)
   \<and> in_bounds (length_w bridge_window) 0
   \<and> in_bounds (length_w manager_window) FPGA_MANAGER_GPO
   \<and> fst (read_reg manager_window FPGA_MANAGER_GPO
            (write_reg bridge_window 0 0xFF boot_state)) = 0"
proof -
  have d: "ranges_disjoint (phys_base bridge_window) (length_w bridge_window)
       (phys_base manager_window) (length_w manager_window)"
    by (simp add: ranges_disjoint_def bridge_window_def manager_window_def H2F_LW_BASE_def
        H2F_LW_SIZE_def FPGA_MANAGER_BASE_def FPGA_MANAGER_SIZE_def)
  have b1: "in_bounds (length_w bridge_window) 0"
    by (simp add: in_bounds_def bridge_window_def H2F_LW_SIZE_def)
  have b2: "in_bounds (length_w manager_window) FPGA_MANAGER_GPO"
    by (simp add: in_bounds_def manager_window_def FPGA_MANAGER_SIZE_def FPGA_MANAGER_GPO_def)
  have "fst (read_reg manager_window FPGA_MANAGER_GPO boot_state) = 0"
    by (simp add: read_reg_def read_ptr_def Let_def load32_def boot_state_def)
  with windows_do_not_interfere [OF d b1 b2, of "0xFF" boot_state] d b1 b2
  show ?thesis by simp
qed

text \<open>
  Claim C10. When the mapping is granted, the stores of the first \<open>n\<close> rounds of either
  program are \<open>n\<close> stores to the output register (\<^verbatim>\<open>reg0\<close> at offset 0, \<^verbatim>\<open>gpo\<close>
  at offset \<open>0x10\<close>) of the values \<open>1, 2, \<dots>\<close>: round \<open>k\<close> writes \<open>k mod 256\<close>. Every
  value written is at most \<open>0xFF\<close>, and each round writes one more than the round before,
  except that the round after \<open>0xFF\<close> writes 0.
\<close>

theorem polling_writes_led_count:
  assumes "open_ret e \<noteq> - 1" and "mmap_ret e \<noteq> MAP_FAILED"
  shows "stores (trace (snd (axi3_main e n s0)))
           = stores (trace s0) @ map (Pair (mmap_ret e)) (led_values n)
    \<and> stores (trace (snd (gpigpo_main e n s0)))
           = stores (trace s0) @ map (Pair (mmap_ret e + 0x10)) (led_values n)
    \<and> (\<forall>v \<in> set (led_values n). v \<le> 0xFF)
    \<and> led_values (Suc n)
           = led_values n @ [if n mod 256 = 255 then 0 else word_of_nat (n mod 256) + 1]"
proof -
  have a: "stores (trace (snd (axi3_main e n s0)))
             = stores (trace s0) @ map (Pair (mmap_ret e)) (led_values n)"
  proof -
    let ?w = "\<lparr>virt_base = mmap_ret e, length_w = H2F_LW_SIZE, handle = open_ret e,
                phys_base = H2F_LW_BASE\<rparr>"
    obtain s1 where m: "map_window e H2F_LW_BASE H2F_LW_SIZE s0 = (Inr ?w, s1)"
      and t1: "trace s1 = trace s0 @ [SysOpen (open_ret e),
                 SysMmap H2F_LW_SIZE (open_ret e) H2F_LW_BASE (mmap_ret e)]"
      using map_window_granted [OF assms, of H2F_LW_BASE H2F_LW_SIZE s0] by simp
    let ?s2 = "printf (''Reg0       | Reg1       | Reg2       | Reg3'' @ [CHR 0x0A]) [] s1"
    obtain l s3 where p: "axi3_poll n ?w (axi3_regs ?w) (word_of_nat (0 mod 256), ?s2) = (l, s3)"
      by (cases "axi3_poll n ?w (axi3_regs ?w) (word_of_nat (0 mod 256), ?s2)")
    have r: "fst (axi3_regs ?w) = mmap_ret e"
      by (simp add: axi3_regs_def register_pointer_def)
    from axi3_poll_count [OF p]
    have "stores (trace s3) = stores (trace ?s2) @ map (Pair (mmap_ret e)) (led_values n)"
      by (simp add: led_values_def r comp_def)
    moreover have "stores (trace ?s2) = stores (trace s0)"
      by (simp add: printf_def log_def t1 stores_append)
    moreover from m p have "snd (axi3_main e n s0) = s3"
      by (simp add: axi3_main_def Let_def)
    ultimately show ?thesis by simp
  qed
  have g: "stores (trace (snd (gpigpo_main e n s0)))
             = stores (trace s0) @ map (Pair (mmap_ret e + 0x10)) (led_values n)"
  proof -
    let ?w = "\<lparr>virt_base = mmap_ret e, length_w = FPGA_MANAGER_SIZE, handle = open_ret e,
                phys_base = FPGA_MANAGER_BASE\<rparr>"
    obtain s1 where m: "map_window e FPGA_MANAGER_BASE FPGA_MANAGER_SIZE s0 = (Inr ?w, s1)"
      and t1: "trace s1 = trace s0 @ [SysOpen (open_ret e),
                 SysMmap FPGA_MANAGER_SIZE (open_ret e) FPGA_MANAGER_BASE (mmap_ret e)]"
      using map_window_granted [OF assms, of FPGA_MANAGER_BASE FPGA_MANAGER_SIZE s0] by simp
    let ?s2 = "printf (''Status     | Control    | GPI        | GPO'' @ [CHR 0x0A]) [] s1"
    obtain l s3
      where p: "gpigpo_poll n ?w (gpigpo_regs ?w) (word_of_nat (0 mod 256), ?s2) = (l, s3)"
      by (cases "gpigpo_poll n ?w (gpigpo_regs ?w) (word_of_nat (0 mod 256), ?s2)")
    have r: "fst (snd (snd (gpigpo_regs ?w))) = mmap_ret e + 0x10"
      by (simp add: gpigpo_regs_def register_pointer_def FPGA_MANAGER_GPO_def)
    from gpigpo_poll_count [OF p]
    have "stores (trace s3) = stores (trace ?s2) @ map (Pair (mmap_ret e + 0x10)) (led_values n)"
      by (simp add: led_values_def r comp_def)
    moreover have "stores (trace ?s2) = stores (trace s0)"
      by (simp add: printf_def log_def t1 stores_append)
    moreover from m p have "snd (gpigpo_main e n s0) = s3"
      by (simp add: gpigpo_main_def Let_def)
    ultimately show ?thesis by simp
  qed
  have b: "\<forall>v \<in> set (led_values n). v \<le> 0xFF"
    using led_values_le by blast
  have "(word_of_nat (Suc n mod 256) :: u32)
      = (if n mod 256 = 255 then 0 else word_of_nat (n mod 256) + 1)"
    by (simp add: mod_Suc)
  then have st: "led_values (Suc n)
      = led_values n @ [if n mod 256 = 255 then 0 else word_of_nat (n mod 256) + 1]"
    by (simp add: led_values_def)
  from a g b st show ?thesis by blast
qed

text \<open>Three rounds of each program from the start state.\<close>

theorem polling_writes_led_count_witness:
  "open_ret platform_grants \<noteq> - 1 \<and> mmap_ret platform_grants \<noteq> MAP_FAILED
   \<and> stores (trace (snd (axi3_main platform_grants 3 boot_state)))
        = [(0xB6D00000, 1), (0xB6D00000, 2), (0xB6D00000, 3)]
   \<and> stores (trace (snd (gpigpo_main platform_grants 3 boot_state)))
        = [(0xB6D00010, 1), (0xB6D00010, 2), (0xB6D00010, 3)]
   \<and> 3 \<in> set (led_values 3) \<and> (3::u32) \<le> 0xFF"
proof -
  have h: "open_ret platform_grants \<noteq> - 1" "mmap_ret platform_grants \<noteq> MAP_FAILED"
    by (simp_all add: platform_grants_def MAP_FAILED_def)
  have t: "trace boot_state = []" "mmap_ret platform_grants = 0xB6D00000"
    by (simp_all add: boot_state_def platform_grants_def)
  from polling_writes_led_count [OF h, of 3 boot_state] h show ?thesis
    by (simp add: led_values_3 t)
qed

end
